theory Spec2Isabelle
  imports Complex_Main "HOL-Library.Multiset"
begin

text \<open>
  A shallow embedding of \<^verbatim>\<open>utils::dataParser\<close> (\<^verbatim>\<open>include/utils/data_parser.hpp\<close>) of
  MSCEqF: the stored IMU, groundtruth and camera data, the two queries
  \<^verbatim>\<open>consumeSensorReadingAt\<close> and \<^verbatim>\<open>getCloserGroundtruthAt\<close>, and the three parsers that
  fill the stored data. \<^verbatim>\<open>include/msceqf/symmetry/symmetry.hpp\<close> declares \<^verbatim>\<open>Symmetry::phi\<close>,
  \<^verbatim>\<open>lift\<close> and \<^verbatim>\<open>curvatureCorrection\<close> without their bodies, so there is no code of theirs
  to embed.
\<close>

section \<open>Floating-point values of the data parser\<close>

text \<open>
  \<^verbatim>\<open>msceqf::fp\<close> is the floating-point type of the timestamps and of every parsed
  number. Its declaration (in \<^verbatim>\<open>utils/tools.hpp\<close>) is not among the sources; it is taken
  to be \<^verbatim>\<open>double\<close>, the IEEE 754 binary64 format. The parser creates
  not-a-number values itself (\<^verbatim>\<open>parseLine\<close> stores \<^verbatim>\<open>quiet_NaN\<close> for the token \<^verbatim>\<open>nan\<close>),
  and \<^verbatim>\<open>std::stod\<close> reads infinities, so a value is a finite number, an infinity or \<open>NaN\<close>.
  \<open>Num 0\<close> stands for both signed zeros: they compare equal, and the modelled code has no
  operation that tells them apart (it divides by the constant \<open>1e9\<close> only).
\<close>

datatype fp = Num real | PInf | MInf | NaN

text \<open>
  Rounding of a real result to binary64, to nearest with ties to even. The doubles in
  the binade \<open>2^e \<le> |x| < 2^(e+1)\<close> are the multiples of \<open>2^(e-52)\<close>; below \<open>2^-1022\<close> (the
  subnormal range) they are the multiples of \<open>2^-1074\<close>. A result that rounds to
  \<open>2^1024\<close> or more overflows to an infinity.
\<close>

definition round_ties_even :: "real \<Rightarrow> int" where
  "round_ties_even m =
     (let f = \<lfloor>m\<rfloor>
      in if m - of_int f < 1 / 2 then f
         else if 1 / 2 < m - of_int f then f + 1
         else if even f then f else f + 1)"

definition b64_quantum :: "real \<Rightarrow> real" where
  "b64_quantum x = 2 powr (of_int (max \<lfloor>log 2 \<bar>x\<bar>\<rfloor> (- 1022)) - 52)"

definition b64_round :: "real \<Rightarrow> fp" where
  "b64_round x =
     (if x = 0 then Num 0
      else let q = b64_quantum x;
               y = of_int (round_ties_even (\<bar>x\<bar> / q)) * q
           in if 2 ^ 1024 \<le> y then (if 0 < x then PInf else MInf)
              else Num (sgn x * y))"

text \<open>
  The operators of the source on \<^verbatim>\<open>fp\<close>: \<^verbatim>\<open>==\<close>, \<^verbatim>\<open>>\<close>, \<^verbatim>\<open>+\<close>, \<^verbatim>\<open>-\<close>, \<^verbatim>\<open>/ 1e9\<close> and
  \<^verbatim>\<open>std::abs\<close>. Every comparison with \<open>NaN\<close> is false; every operation on \<open>NaN\<close> gives
  \<open>NaN\<close>, and so does the sum of opposite infinities. Sum, difference and quotient of
  finite values are the exact results rounded to binary64; negation and absolute value
  are exact.
\<close>

fun fp_eq :: "fp \<Rightarrow> fp \<Rightarrow> bool" where
  "fp_eq (Num a) (Num b) = (a = b)"
| "fp_eq PInf PInf = True"
| "fp_eq MInf MInf = True"
| "fp_eq _ _ = False"

fun fp_gt :: "fp \<Rightarrow> fp \<Rightarrow> bool" where
  "fp_gt (Num a) (Num b) = (a > b)"
| "fp_gt PInf (Num b) = True"
| "fp_gt PInf MInf = True"
| "fp_gt (Num a) MInf = True"
| "fp_gt _ _ = False"

fun fp_neg :: "fp \<Rightarrow> fp" where
  "fp_neg (Num a) = Num (- a)"
| "fp_neg PInf = MInf"
| "fp_neg MInf = PInf"
| "fp_neg NaN = NaN"

fun fp_add :: "fp \<Rightarrow> fp \<Rightarrow> fp" where
  "fp_add (Num a) (Num b) = b64_round (a + b)"
| "fp_add NaN _ = NaN"
| "fp_add _ NaN = NaN"
| "fp_add PInf MInf = NaN"
| "fp_add MInf PInf = NaN"
| "fp_add PInf _ = PInf"
| "fp_add _ PInf = PInf"
| "fp_add MInf _ = MInf"
| "fp_add _ MInf = MInf"

definition fp_sub :: "fp \<Rightarrow> fp \<Rightarrow> fp" where
  "fp_sub x y = fp_add x (fp_neg y)"

fun fp_div_1e9 :: "fp \<Rightarrow> fp" where
  "fp_div_1e9 (Num a) = b64_round (a / 10 ^ 9)"
| "fp_div_1e9 PInf = PInf"
| "fp_div_1e9 MInf = MInf"
| "fp_div_1e9 NaN = NaN"

fun fp_abs :: "fp \<Rightarrow> fp" where
  "fp_abs (Num a) = Num \<bar>a\<bar>"
| "fp_abs PInf = PInf"
| "fp_abs MInf = PInf"
| "fp_abs NaN = NaN"

section \<open>Sensor records and the parser's stored data\<close>

text \<open>
  \<^verbatim>\<open>Groundtruth\<close> is declared in \<^verbatim>\<open>data_parser.hpp\<close>. \<^verbatim>\<open>Imu\<close> and \<^verbatim>\<open>Camera\<close> come from
  \<^verbatim>\<open>sensors/sensor_data.hpp\<close>; their fields are the ones the parser assigns. The image
  type of OpenCV is the type parameter \<open>'img\<close>. A field \<^verbatim>\<open>timestamp_\<close> of the source is
  \<open>imu_timestamp\<close>, \<open>cam_timestamp\<close> or \<open>gt_timestamp\<close> here, and so on for the other
  fields. A quaternion is written in the order \<open>(x, y, z, w)\<close>.
\<close>

type_synonym Vector3 = "fp \<times> fp \<times> fp"

type_synonym Quaternion = "fp \<times> fp \<times> fp \<times> fp"

record Imu =
  imu_timestamp :: fp
  imu_ang :: Vector3
  imu_acc :: Vector3

record 'img Camera =
  cam_timestamp :: fp
  cam_image :: 'img
  cam_mask :: 'img

record Groundtruth =
  gt_timestamp :: fp
  gt_q :: Quaternion
  gt_p :: Vector3
  gt_v :: Vector3
  gt_bw :: Vector3
  gt_ba :: Vector3

text \<open>The \<^verbatim>\<open>std::variant<Imu, Camera>\<close> returned by \<^verbatim>\<open>consumeSensorReadingAt\<close>.\<close>

datatype 'img SensorReading = ImuReading Imu | CameraReading "'img Camera"

text \<open>
  The exceptions of the parser: a \<^verbatim>\<open>std::runtime_error\<close> with the fixed part of its
  message and the timestamp appended to it (if any), and the two exceptions of the standard
  library that the parser lets escape, \<^verbatim>\<open>std::out_of_range\<close> (from \<^verbatim>\<open>vector::at\<close> and
  \<^verbatim>\<open>std::stod\<close>) and \<^verbatim>\<open>std::invalid_argument\<close> (from \<^verbatim>\<open>std::stod\<close>).
\<close>

datatype error = runtime_error string "fp option" | out_of_range | invalid_argument

text \<open>
  The data members of \<^verbatim>\<open>dataParser\<close> that the modelled member functions read or write.
\<close>

record 'img dataParser =
  image_data_folder :: string
  imu_header_titles :: "string list"
  groundtruth_header_titles :: "string list"
  image_header_titles :: "string list"
  imu_data :: "Imu list"
  groundtruth_data :: "Groundtruth list"
  image_data :: "'img Camera list"
  timeoffset :: fp

section \<open>Iterators\<close>

text \<open>
  \<^verbatim>\<open>std::find_if\<close> returns the position of the first element satisfying the predicate, or
  the end position (the length) when there is none. \<^verbatim>\<open>vector::erase\<close> removes the element
  at a position.
\<close>

fun find_if :: "('a \<Rightarrow> bool) \<Rightarrow> 'a list \<Rightarrow> nat" where
  "find_if P [] = 0"
| "find_if P (x # xs) = (if P x then 0 else Suc (find_if P xs))"

definition erase :: "'a list \<Rightarrow> nat \<Rightarrow> 'a list" where
  "erase xs i = take i xs @ drop (Suc i) xs"

section \<open>Reading the stored data\<close>

definition consumeSensorReadingAt ::
  "fp \<Rightarrow> 'img dataParser \<Rightarrow> (error + 'img SensorReading) \<times> 'img dataParser" where
  "consumeSensorReadingAt t s =
     (let imu_it = find_if (\<lambda>imu. fp_eq (imu_timestamp imu) t) (imu_data s);
          cam_it = find_if (\<lambda>cam. fp_eq (cam_timestamp cam) t) (image_data s)
      in if imu_it \<noteq> length (imu_data s) then
           (Inr (ImuReading (imu_data s ! imu_it)), s\<lparr>imu_data := erase (imu_data s) imu_it\<rparr>)
         else if cam_it \<noteq> length (image_data s) then
           (Inr (CameraReading (image_data s ! cam_it)),
            s\<lparr>image_data := erase (image_data s) cam_it\<rparr>)
         else (Inl (runtime_error ''No sensor reading found at timestamp '' (Some t)), s))"

definition getCloserGroundtruthAt :: "fp \<Rightarrow> 'img dataParser \<Rightarrow> error + Groundtruth" where
  "getCloserGroundtruthAt t s =
     (let gts = groundtruth_data s;
          gt = find_if (\<lambda>g. fp_gt (gt_timestamp g) t) gts
      in if gt = length gts then
           Inl (runtime_error ''No groundtruth data found at timestamp '' (Some t))
         else if gt \<noteq> 0 \<and>
                 fp_gt (fp_abs (fp_sub (gt_timestamp (gts ! gt)) t))
                       (fp_abs (fp_sub (gt_timestamp (gts ! (gt - 1))) t)) then
           Inr (gts ! (gt - 1))
         else Inr (gts ! gt))"


section \<open>Parsing\<close>

text \<open>
  \<^verbatim>\<open>v.at(i)\<close> throws \<^verbatim>\<open>std::out_of_range\<close> outside the vector. \<open>and_then\<close> sequences two
  steps of which the first may throw.
\<close>

definition vector_at :: "'a list \<Rightarrow> nat \<Rightarrow> error + 'a" where
  "vector_at xs i = (if i < length xs then Inr (xs ! i) else Inl out_of_range)"

fun and_then :: "error + 'a \<Rightarrow> ('a \<Rightarrow> error + 'b) \<Rightarrow> error + 'b" where
  "and_then (Inl e) f = Inl e"
| "and_then (Inr x) f = f x"

text \<open>
  \<open>col indices it k\<close> is the expression \<^verbatim>\<open>it.at(indices.at(k))\<close>; \<open>col3\<close> reads the three
  columns of a 3-vector, in the order of the source.
\<close>

definition col :: "nat list \<Rightarrow> 'a list \<Rightarrow> nat \<Rightarrow> error + 'a" where
  "col indices it k = and_then (vector_at indices k) (vector_at it)"

definition col3 :: "nat list \<Rightarrow> 'a list \<Rightarrow> nat \<Rightarrow> nat \<Rightarrow> nat \<Rightarrow> error + ('a \<times> 'a \<times> 'a)" where
  "col3 indices it kx ky kz =
     and_then (col indices it kx) (\<lambda>x.
     and_then (col indices it ky) (\<lambda>y.
     and_then (col indices it kz) (\<lambda>z. Inr (x, y, z))))"

text \<open>
  \<^verbatim>\<open>getIndex\<close> finds a title in the header. \<^verbatim>\<open>getIndices\<close> trims header and titles in
  place (with \<^verbatim>\<open>trimString\<close> of \<^verbatim>\<open>utils/tools.hpp\<close>, a parameter here), then looks every
  title up and fails at the first one that is missing. The titles are a data member of
  the parser, so the trimmed titles are part of the result.
\<close>

definition getIndex :: "'a list \<Rightarrow> 'a \<Rightarrow> nat option" where
  "getIndex data token =
     (let it = find_if (\<lambda>x. x = token) data
      in if it \<noteq> length data then Some it else None)"

fun getIndices_from :: "string list \<Rightarrow> string list \<Rightarrow> nat list \<Rightarrow> nat list option" where
  "getIndices_from header [] indices = Some indices"
| "getIndices_from header (it # titles) indices =
     (case getIndex header it of
        None \<Rightarrow> None
      | Some idx \<Rightarrow> getIndices_from header titles (indices @ [idx]))"

definition getIndices ::
  "(string \<Rightarrow> string) \<Rightarrow> string list \<Rightarrow> string list \<Rightarrow> string list \<times> nat list option" where
  "getIndices trimString header titles =
     (let header' = map trimString header;
          titles' = map trimString titles
      in (titles', getIndices_from header' titles' []))"

text \<open>
  The bodies of the three loops \<^verbatim>\<open>for (const auto& it : data)\<close>: one row of numbers (or of
  strings, for the images) becomes one record. The quaternion normalisation of Eigen, and
  \<^verbatim>\<open>std::stod\<close>, \<^verbatim>\<open>cv::imread\<close> and the all-255 mask of OpenCV are parameters.
\<close>

definition imu_row :: "nat list \<Rightarrow> fp list \<Rightarrow> error + Imu" where
  "imu_row imu_indices it =
     and_then (col imu_indices it 0) (\<lambda>raw.
     and_then (col3 imu_indices it 1 2 3) (\<lambda>ang.
     and_then (col3 imu_indices it 4 5 6) (\<lambda>acc.
       Inr \<lparr>imu_timestamp =
              (if fp_gt raw (Num (10 * 10 ^ 12)) then fp_div_1e9 raw else raw),
            imu_ang = ang, imu_acc = acc\<rparr>)))"

definition gt_row ::
  "(Quaternion \<Rightarrow> Quaternion) \<Rightarrow> bool \<Rightarrow> bool \<Rightarrow> nat list \<Rightarrow> fp list
     \<Rightarrow> error + Groundtruth" where
  "gt_row q_normalize have_velocity have_bias groundtruth_indices it =
     and_then (col groundtruth_indices it 0) (\<lambda>raw.
     and_then (col groundtruth_indices it 1) (\<lambda>qx.
     and_then (col groundtruth_indices it 2) (\<lambda>qy.
     and_then (col groundtruth_indices it 3) (\<lambda>qz.
     and_then (col groundtruth_indices it 4) (\<lambda>qw.
     and_then (col3 groundtruth_indices it 5 6 7) (\<lambda>p.
     and_then (if have_velocity then col3 groundtruth_indices it 8 9 10
               else Inr (Num 0, Num 0, Num 0)) (\<lambda>v.
     and_then (if have_bias then col3 groundtruth_indices it 11 12 13
               else Inr (Num 0, Num 0, Num 0)) (\<lambda>bw.
     and_then (if have_bias then col3 groundtruth_indices it 14 15 16
               else Inr (Num 0, Num 0, Num 0)) (\<lambda>ba.
       Inr \<lparr>gt_timestamp =
              (if fp_gt raw (Num (10 * 10 ^ 12)) then fp_div_1e9 raw else raw),
            gt_q = q_normalize (qx, qy, qz, qw),
            gt_p = p, gt_v = v, gt_bw = bw, gt_ba = ba\<rparr>)))))))))"

definition image_row ::
  "(string \<Rightarrow> error + fp) \<Rightarrow> (string \<Rightarrow> 'img) \<Rightarrow> ('img \<Rightarrow> 'img) \<Rightarrow> string \<Rightarrow> fp
     \<Rightarrow> nat list \<Rightarrow> string list \<Rightarrow> error + 'img Camera" where
  "image_row stod imread ones_mask folder toff image_indices it =
     and_then (col image_indices it 0) (\<lambda>s0.
     and_then (stod s0) (\<lambda>raw.
     and_then (col image_indices it 1) (\<lambda>name.
       let image = imread (folder @ name) in
       Inr \<lparr>cam_timestamp =
              fp_add (if fp_gt raw (Num (10 * 10 ^ 12)) then fp_div_1e9 raw else raw)
                     toff,
            cam_image = image, cam_mask = ones_mask image\<rparr>)))"

text \<open>
  The loop itself: every record is appended to the stored vector; an exception leaves the
  loop with the records stored so far.
\<close>

fun store_rows ::
  "('row \<Rightarrow> error + 'rec) \<Rightarrow> 'row list \<Rightarrow> 'rec list \<Rightarrow> error option \<times> 'rec list" where
  "store_rows f [] stored = (None, stored)"
| "store_rows f (it # data) stored =
     (case f it of
        Inl e \<Rightarrow> (Some e, stored)
      | Inr r \<Rightarrow> store_rows f data (stored @ [r]))"

text \<open>
  The number of groundtruth titles decides whether velocity and biases are read
  (\<open>(have_velocity, have_bias)\<close>); any other number is an error.
\<close>

definition gt_layout :: "nat \<Rightarrow> (bool \<times> bool) option" where
  "gt_layout n =
     (if n = 17 then Some (True, True)
      else if n = 14 then Some (False, True)
      else if n = 11 then Some (True, False)
      else if n = 8 then Some (False, False)
      else None)"

text \<open>
  \<^verbatim>\<open>parseAndCheckImu\<close>, \<^verbatim>\<open>parseAndCheckGt\<close> and \<^verbatim>\<open>parseAndCheckImages\<close>, from the point
  where the file has been read and split into cells: \<open>good\<close> is \<^verbatim>\<open>file.good()\<close>, \<open>header\<close>
  the cells of the first line and \<open>data\<close> the cells of the other lines, as \<^verbatim>\<open>parseLine\<close>
  returned them. \<^verbatim>\<open>std::sort\<close> is the parameter \<open>std_sort\<close>. The result is the exception
  thrown, if any, and the parser afterwards.
\<close>

definition parseAndCheckImu ::
  "(string \<Rightarrow> string) \<Rightarrow> (Imu list \<Rightarrow> Imu list) \<Rightarrow> bool \<Rightarrow> string list \<Rightarrow> fp list list
     \<Rightarrow> 'img dataParser \<Rightarrow> error option \<times> 'img dataParser" where
  "parseAndCheckImu trimString std_sort good header data s =
     (if good then
        (let (titles, found) = getIndices trimString header (imu_header_titles s);
             s1 = s\<lparr>imu_header_titles := titles\<rparr>
         in case found of
              None \<Rightarrow> (Some (runtime_error ''Required imu missing. Exit programm.'' None), s1)
            | Some imu_indices \<Rightarrow>
                (case store_rows (imu_row imu_indices) data [] of
                   (res, stored) \<Rightarrow>
                     (res, s1\<lparr>imu_data := (if res = None then std_sort stored else stored)\<rparr>)))
      else (Some (runtime_error ''Corrupted file. Exit programm.'' None), s))"

definition parseAndCheckGt ::
  "(string \<Rightarrow> string) \<Rightarrow> (Quaternion \<Rightarrow> Quaternion) \<Rightarrow> (Groundtruth list \<Rightarrow> Groundtruth list)
     \<Rightarrow> bool \<Rightarrow> string list \<Rightarrow> fp list list
     \<Rightarrow> 'img dataParser \<Rightarrow> error option \<times> 'img dataParser" where
  "parseAndCheckGt trimString q_normalize std_sort good header data s =
     (case gt_layout (length (groundtruth_header_titles s)) of
        None \<Rightarrow>
          (Some (runtime_error ''Wrong number of groundtruth header titles. Exit programm.'' None),
           s)
      | Some (have_velocity, have_bias) \<Rightarrow>
          if good then
            (let (titles, found) = getIndices trimString header (groundtruth_header_titles s);
                 s1 = s\<lparr>groundtruth_header_titles := titles\<rparr>
             in case found of
                  None \<Rightarrow>
                    (Some (runtime_error ''Required groundtruth missing. Exit programm.'' None),
                     s1)
                | Some groundtruth_indices \<Rightarrow>
                    (case store_rows
                            (gt_row q_normalize have_velocity have_bias groundtruth_indices)
                            data [] of
                       (res, stored) \<Rightarrow>
                         (res, s1\<lparr>groundtruth_data :=
                                     (if res = None then std_sort stored else stored)\<rparr>)))
          else (Some (runtime_error ''Corrupted file. Exit programm.'' None), s))"

definition parseAndCheckImages ::
  "(string \<Rightarrow> string) \<Rightarrow> (string \<Rightarrow> error + fp) \<Rightarrow> (string \<Rightarrow> 'img) \<Rightarrow> ('img \<Rightarrow> 'img)
     \<Rightarrow> ('img Camera list \<Rightarrow> 'img Camera list) \<Rightarrow> bool \<Rightarrow> string list \<Rightarrow> string list list
     \<Rightarrow> 'img dataParser \<Rightarrow> error option \<times> 'img dataParser" where
  "parseAndCheckImages trimString stod imread ones_mask std_sort good header data s =
     (if good then
        (let (titles, found) = getIndices trimString header (image_header_titles s);
             s1 = s\<lparr>image_header_titles := titles\<rparr>
         in case found of
              None \<Rightarrow>
                (Some (runtime_error ''Required groundtruth missing. Exit programm.'' None), s1)
            | Some image_indices \<Rightarrow>
                (case store_rows
                        (image_row stod imread ones_mask (image_data_folder s) (timeoffset s)
                           image_indices)
                        data [] of
                   (res, stored) \<Rightarrow>
                     (res, s1\<lparr>image_data := (if res = None then std_sort stored else stored)\<rparr>)))
      else (Some (runtime_error ''Corrupted file. Exit programm.'' None), s))"

section \<open>Example data\<close>

definition imu_at :: "real \<Rightarrow> Imu" where
  "imu_at x =
     \<lparr>imu_timestamp = Num x, imu_ang = (Num 0, Num 0, Num 0), imu_acc = (Num 0, Num 0, Num x)\<rparr>"

definition cam_at :: "real \<Rightarrow> nat \<Rightarrow> nat Camera" where
  "cam_at x i = \<lparr>cam_timestamp = Num x, cam_image = i, cam_mask = 255\<rparr>"

definition gt_at :: "real \<Rightarrow> Groundtruth" where
  "gt_at x =
     \<lparr>gt_timestamp = Num x, gt_q = (Num 0, Num 0, Num 0, Num 1),
      gt_p = (Num x, Num 0, Num 0), gt_v = (Num 0, Num 0, Num 0),
      gt_bw = (Num 0, Num 0, Num 0), gt_ba = (Num 0, Num 0, Num 0)\<rparr>"

definition example_parser :: "nat dataParser" where
  "example_parser =
     \<lparr>image_data_folder = ''d/'',
      imu_header_titles = [''t'', ''a'', ''b'', ''c'', ''d'', ''e'', ''f''],
      groundtruth_header_titles = [''t'', ''a'', ''b'', ''c'', ''d'', ''e'', ''f'', ''g''],
      image_header_titles = [''t'', ''n''],
      imu_data = [imu_at 1, imu_at 2, imu_at 2, imu_at 3],
      groundtruth_data = [gt_at 1, gt_at 2, gt_at 10],
      image_data = [cam_at 2 7, cam_at 4 8],
      timeoffset = Num (1 / 2)\<rparr>"

text \<open>
  The double nearest to \<open>1e-20\<close> (what \<^verbatim>\<open>std::stod\<close> returns for \<^verbatim>\<open>1e-20\<close>), and a parser
  whose two groundtruth records are at this timestamp and at 8.
\<close>

definition double_1e_20 :: real where
  "double_1e_20 = 6646139978924579 / 2 ^ 119"

definition near_tie_parser :: "nat dataParser" where
  "near_tie_parser = example_parser\<lparr>groundtruth_data := [gt_at double_1e_20, gt_at 8]\<rparr>"

definition example_imu_header :: "string list" where
  "example_imu_header = [''t'', ''a'', ''b'', ''c'', ''d'', ''e'', ''f'']"

definition example_imu_rows :: "fp list list" where
  "example_imu_rows =
     [[Num 1403636579763555584, Num 1, Num 2, Num 3, Num 4, Num 5, Num 6],
      [Num 5, Num 1, Num 2, Num 3, Num 4, Num 5, Num 6]]"

definition example_gt_header :: "string list" where
  "example_gt_header = [''t'', ''a'', ''b'', ''c'', ''d'', ''e'', ''f'', ''g'']"

definition example_gt_rows :: "fp list list" where
  "example_gt_rows =
     [[Num 1403636579763555584, Num 0, Num 0, Num 0, Num 1, Num 1, Num 2, Num 3],
      [Num 10000000000000, Num 0, Num 0, Num 0, Num 1, Num 1, Num 2, Num 3]]"

definition example_image_rows :: "string list list" where
  "example_image_rows = [[''x'', ''i''], [''y'', ''j'']]"

definition example_stod :: "string \<Rightarrow> error + fp" where
  "example_stod str =
     (if str = ''x'' then Inr (Num 1403636579763555584)
      else if str = ''y'' then Inr (Num 7)
      else Inl invalid_argument)"

section \<open>Facts about the iterators\<close>

lemma find_if_end_iff: "find_if P xs = length xs \<longleftrightarrow> (\<forall>x \<in> set xs. \<not> P x)"
proof (induction xs)
  case Nil
  show ?case by simp
next
  case (Cons x xs)
  show ?case
  proof (cases "P x")
    case True
    then show ?thesis by auto
  next
    case False
    with Cons show ?thesis by auto
  qed
qed


lemma find_if_found:
  assumes "find_if P xs \<noteq> length xs"
  shows "\<exists>pre r post. xs = pre @ r # post \<and> (\<forall>x \<in> set pre. \<not> P x) \<and> P r
           \<and> find_if P xs = length pre"
  using assms
proof (induction xs)
  case Nil
  then show ?case by simp
next
  case (Cons x xs)
  show ?case
  proof (cases "P x")
    case True
    then have "x # xs = [] @ x # xs \<and> (\<forall>y \<in> set []. \<not> P y) \<and> P x
                 \<and> find_if P (x # xs) = length ([]::'a list)"
      by simp
    then show ?thesis by blast
  next
    case False
    with Cons.prems have "find_if P xs \<noteq> length xs" by simp
    from Cons.IH [OF this] obtain pre r post where
      h: "xs = pre @ r # post" "\<forall>y \<in> set pre. \<not> P y" "P r" "find_if P xs = length pre"
      by blast
    from h False have "x # xs = (x # pre) @ r # post \<and> (\<forall>y \<in> set (x # pre). \<not> P y) \<and> P r
                 \<and> find_if P (x # xs) = length (x # pre)"
      by simp
    then show ?thesis by blast
  qed
qed

lemma erase_middle: "erase (pre @ r # post) (length pre) = pre @ post"
  by (simp add: erase_def)

section \<open>Facts about the rounding\<close>

lemma round_ties_even_eqI:
  assumes "\<bar>m - of_int n\<bar> < 1 / 2"
  shows "round_ties_even m = n"
proof -
  from assms have lo: "of_int n - 1 / 2 < m" and hi: "m < of_int n + 1 / 2"
    by linarith+
  show ?thesis
  proof (cases "of_int n \<le> m")
    case True
    with hi have "\<lfloor>m\<rfloor> = n" by (intro floor_unique) auto
    with hi show ?thesis by (simp add: round_ties_even_def)
  next
    case False
    with lo have f: "\<lfloor>m\<rfloor> = n - 1" by (intro floor_unique) auto
    with lo show ?thesis by (simp add: round_ties_even_def)
  qed
qed

lemma b64_quantum_binade:
  assumes "2 powr of_int e \<le> \<bar>x\<bar>" "\<bar>x\<bar> < 2 powr (of_int e + 1)" "- 1022 \<le> e"
  shows "b64_quantum x = 2 powr (of_int e - 52)"
proof -
  have pos: "0 < \<bar>x\<bar>"
    using assms(1) by (smt (verit) powr_gt_zero)
  have "\<lfloor>log 2 \<bar>x\<bar>\<rfloor> = e"
    using assms(1,2) pos by (subst floor_log_eq_powr_iff) auto
  with assms(3) show ?thesis by (simp add: b64_quantum_def max_def)
qed

lemma b64_round_eqI:
  assumes "2 powr of_int e \<le> \<bar>x\<bar>" "\<bar>x\<bar> < 2 powr (of_int e + 1)" "- 1022 \<le> e"
    and "\<bar>\<bar>x\<bar> / 2 powr (of_int e - 52) - of_int n\<bar> < 1 / 2"
    and "real_of_int n * 2 powr (of_int e - 52) < 2 ^ 1024"
    and "y = sgn x * (of_int n * 2 powr (of_int e - 52))"
  shows "b64_round x = Num y"
proof -
  have pos: "0 < \<bar>x\<bar>"
    using assms(1) by (smt (verit) powr_gt_zero)
  have q: "b64_quantum x = 2 powr (of_int e - 52)"
    by (rule b64_quantum_binade [OF assms(1-3)])
  have r: "round_ties_even (\<bar>x\<bar> / 2 powr (of_int e - 52)) = n"
    by (rule round_ties_even_eqI [OF assms(4)])
  from pos assms(5,6) show ?thesis
    by (simp add: b64_round_def q r Let_def)
qed

lemma b64_round_binade:
  assumes "2 powr of_int e \<le> \<bar>x\<bar>" "\<bar>x\<bar> < 2 powr (of_int e + 1)" "- 1022 \<le> e"
  shows "b64_round x =
           (let y = of_int (round_ties_even (\<bar>x\<bar> / 2 powr (of_int e - 52)))
                      * 2 powr (of_int e - 52)
            in if 2 ^ 1024 \<le> y then (if 0 < x then PInf else MInf) else Num (sgn x * y))"
proof -
  have "0 < \<bar>x\<bar>"
    using assms(1) by (smt (verit) powr_gt_zero)
  then show ?thesis
    by (simp add: b64_round_def b64_quantum_binade [OF assms] Let_def)
qed

lemma b64_quantum_subnormal:
  assumes "x \<noteq> 0" "\<bar>x\<bar> < 2 powr (- 1022)"
  shows "b64_quantum x = 2 powr (- 1074)"
proof -
  from assms have "log 2 \<bar>x\<bar> < - 1022"
    by (simp add: log_less_iff)
  then have "\<lfloor>log 2 \<bar>x\<bar>\<rfloor> \<le> - 1022" by linarith
  then show ?thesis by (simp add: b64_quantum_def max_def)
qed

lemma b64_round_subnormal:
  assumes "x \<noteq> 0" "\<bar>x\<bar> < 2 powr (- 1022)"
  shows "b64_round x =
           (let y = of_int (round_ties_even (\<bar>x\<bar> / 2 powr (- 1074))) * 2 powr (- 1074)
            in if 2 ^ 1024 \<le> y then (if 0 < x then PInf else MInf) else Num (sgn x * y))"
  using assms(1) by (simp add: b64_round_def b64_quantum_subnormal [OF assms] Let_def)

text \<open>
  Ties go to the even neighbour, and a rounded value is never farther from the exact one
  than half the spacing of the doubles around it.
\<close>

lemma round_ties_even_ties:
  "round_ties_even (5 / 2) = 2" "round_ties_even (7 / 2) = 4" "round_ties_even (- 5 / 2) = - 2"
  by (simp_all add: round_ties_even_def)

lemma round_ties_even_near: "\<bar>of_int (round_ties_even m) - m\<bar> \<le> 1 / 2"
proof -
  have "of_int \<lfloor>m\<rfloor> \<le> m" "m < of_int \<lfloor>m\<rfloor> + 1" by linarith+
  then show ?thesis
    by (auto simp: round_ties_even_def Let_def abs_le_iff)
qed

lemma b64_round_near:
  assumes "b64_round x = Num y"
  shows "\<bar>y - x\<bar> \<le> b64_quantum x / 2"
proof (cases "x = 0")
  case True
  with assms show ?thesis by (simp add: b64_round_def b64_quantum_def)
next
  case False
  let ?q = "b64_quantum x"
  let ?n = "round_ties_even (\<bar>x\<bar> / ?q)"
  have q: "0 < ?q" by (simp add: b64_quantum_def)
  from assms False have y: "y = sgn x * (of_int ?n * ?q)"
    by (simp add: b64_round_def Let_def split: if_splits)
  have "\<bar>y - x\<bar> = \<bar>sgn x * (of_int ?n * ?q) - sgn x * \<bar>x\<bar>\<bar>"
    by (simp add: y sgn_mult_abs)
  also have "\<dots> = \<bar>sgn x\<bar> * \<bar>of_int ?n * ?q - \<bar>x\<bar>\<bar>"
    by (simp add: right_diff_distrib [symmetric] abs_mult)
  also have "\<dots> = \<bar>of_int ?n * ?q - \<bar>x\<bar>\<bar>"
    using False by (simp add: abs_sgn_eq)
  also have "\<dots> = \<bar>of_int ?n - \<bar>x\<bar> / ?q\<bar> * ?q"
  proof -
    have "of_int ?n * ?q - \<bar>x\<bar> = (of_int ?n - \<bar>x\<bar> / ?q) * ?q"
      using q by (simp add: field_simps)
    then show ?thesis using q by (simp add: abs_mult)
  qed
  also have "\<dots> \<le> (1 / 2) * ?q"
    using round_ties_even_near [of "\<bar>x\<bar> / ?q"] q by (intro mult_right_mono) auto
  finally show ?thesis by simp
qed

text \<open>
  The doubles nearest to \<open>0.1\<close> and \<open>0.2\<close>: their exact sum lies halfway between two
  doubles and is rounded to the even one, \<open>0.30000000000000004\<close>.
\<close>

lemma fp_add_tenths:
  "fp_add (Num (3602879701896397 / 2 ^ 55)) (Num (3602879701896397 / 2 ^ 54))
     = Num (1351079888211149 / 2 ^ 52)"
  unfolding fp_add.simps
  by (subst b64_round_binade [where e = "- 2"])
     (simp_all add: powr_neg_numeral round_ties_even_def)

text \<open>Overflow and the subnormal range.\<close>

lemma b64_round_overflow: "b64_round (2 ^ 1024) = PInf"
  by (subst b64_round_binade [where e = 1024])
     (simp_all add: round_ties_even_def powr_neg_numeral)

text \<open>
  Half the smallest subnormal \<open>2^-1074\<close> is a tie between 0 and \<open>2^-1074\<close> and rounds to
  the even one, 0; three halves of it round to twice the smallest subnormal.
\<close>

lemma b64_round_underflow: "b64_round (1 / 2 ^ 1075) = Num 0"
  by (subst b64_round_subnormal)
     (simp_all add: powr_neg_numeral round_ties_even_def)

lemma b64_round_subnormal_tie: "b64_round (3 / 2 ^ 1075) = Num (2 / 2 ^ 1074)"
  by (subst b64_round_subnormal)
     (simp_all add: powr_neg_numeral round_ties_even_def)

text \<open>
  EuRoC's nanosecond timestamp 1403636579763555584 is a double; its quotient by \<open>1e9\<close> is
  not, and is rounded.
\<close>

lemma fp_div_1e9_euroc:
  "fp_div_1e9 (Num 1403636579763555584) = Num (735909815131075 / 524288)"
  unfolding fp_div_1e9.simps
  by (rule b64_round_eqI [where e = 30 and n = 5887278521048600])
     (simp_all add: powr_neg_numeral)

lemma fp_add_euroc_offset:
  "fp_add (Num (735909815131075 / 524288)) (Num (1 / 2)) = Num (735909815393219 / 524288)"
  unfolding fp_add.simps
  by (rule b64_round_eqI [where e = 30 and n = 5887278523145752])
     (simp_all add: powr_neg_numeral)

lemma fp_add_7_offset: "fp_add (Num 7) (Num (1 / 2)) = Num (15 / 2)"
  unfolding fp_add.simps
  by (rule b64_round_eqI [where e = 2 and n = 8444249301319680])
     (simp_all add: powr_neg_numeral)

lemma double_1e_20_bounds: "0 < double_1e_20" "double_1e_20 < 1"
  by (simp_all add: double_1e_20_def)

lemma fp_sub_near_tie: "fp_sub (Num double_1e_20) (Num 4) = Num (- 4)"
  unfolding fp_sub_def fp_neg.simps fp_add.simps
  by (rule b64_round_eqI [where e = 1 and n = 9007199254740992])
     (simp_all add: powr_neg_numeral double_1e_20_def)

lemma fp_sub_8_4: "fp_sub (Num 8) (Num 4) = Num 4"
  unfolding fp_sub_def fp_neg.simps fp_add.simps
  by (rule b64_round_eqI [where e = 2 and n = 4503599627370496])
     (simp_all add: powr_neg_numeral)

lemma double_1e_20_rounds: "b64_round (1 / 10 ^ 20) = Num double_1e_20"
  by (rule b64_round_eqI [where e = "- 67" and n = 6646139978924579])
     (simp_all add: powr_neg_numeral double_1e_20_def)

text \<open>The differences that the examples of \<^verbatim>\<open>getCloserGroundtruthAt\<close> below compute.\<close>

lemma fp_sub_10_t: "fp_sub (Num 10) (Num (5 / 2)) = Num (15 / 2)"
  unfolding fp_sub_def fp_neg.simps fp_add.simps
  by (rule b64_round_eqI [where e = 2 and n = 8444249301319680])
     (simp_all add: powr_neg_numeral)

lemma fp_sub_2_t: "fp_sub (Num 2) (Num (5 / 2)) = Num (- 1 / 2)"
  unfolding fp_sub_def fp_neg.simps fp_add.simps
  by (rule b64_round_eqI [where e = "- 1" and n = 4503599627370496])
     (simp_all add: powr_neg_numeral powr_neg_one)

lemma fp_sub_10_6: "fp_sub (Num 10) (Num 6) = Num 4"
  unfolding fp_sub_def fp_neg.simps fp_add.simps
  by (rule b64_round_eqI [where e = 2 and n = 4503599627370496])
     (simp_all add: powr_neg_numeral)

lemma fp_sub_2_6: "fp_sub (Num 2) (Num 6) = Num (- 4)"
  unfolding fp_sub_def fp_neg.simps fp_add.simps
  by (rule b64_round_eqI [where e = 2 and n = 4503599627370496])
     (simp_all add: powr_neg_numeral)

section \<open>Facts about the loops\<close>

lemma store_rows_takeWhile:
  assumes ok: "\<And>it. ok it \<Longrightarrow> \<exists>r. f it = Inr r"
    and bad: "\<And>it. \<not> ok it \<Longrightarrow> \<exists>e. f it = Inl e"
  shows "store_rows f data stored =
           ((case dropWhile ok data of [] \<Rightarrow> None | it # _ \<Rightarrow> Some (projl (f it))),
            stored @ map (\<lambda>it. projr (f it)) (takeWhile ok data))"
proof (induction data arbitrary: stored)
  case Nil
  show ?case by simp
next
  case (Cons it data)
  show ?case
  proof (cases "ok it")
    case True
    with ok obtain r where "f it = Inr r" by blast
    with True Cons.IH [of "stored @ [r]"] show ?thesis by simp
  next
    case False
    with bad obtain e where "f it = Inl e" by blast
    with False show ?thesis by simp
  qed
qed

lemma first_error_None:
  "((case xs of [] \<Rightarrow> None | it # _ \<Rightarrow> Some (g it)) = None) \<longleftrightarrow> xs = []"
  by (cases xs) auto

lemma dropWhile_case_None:
  "((case dropWhile ok data of [] \<Rightarrow> None | it # _ \<Rightarrow> Some (g it)) = None)
     \<longleftrightarrow> (\<forall>it \<in> set data. ok it)"
  unfolding first_error_None by (simp add: dropWhile_eq_Nil_conv)

lemma first_error_cases:
  assumes "xs \<noteq> [] \<Longrightarrow> g (hd xs) = e"
  shows "(case xs of [] \<Rightarrow> None | it # _ \<Rightarrow> Some (g it)) = None
       \<or> (case xs of [] \<Rightarrow> None | it # _ \<Rightarrow> Some (g it)) = Some e"
  using assms by (cases xs) auto

lemma dropWhile_case_Some:
  assumes "\<And>it. \<not> ok it \<Longrightarrow> g it = e"
  shows "(case dropWhile ok data of [] \<Rightarrow> None | it # _ \<Rightarrow> Some (g it)) = None
       \<or> (case dropWhile ok data of [] \<Rightarrow> None | it # _ \<Rightarrow> Some (g it)) = Some e"
proof (rule first_error_cases)
  assume "dropWhile ok data \<noteq> []"
  then have "\<not> ok (hd (dropWhile ok data))" by (rule hd_dropWhile)
  then show "g (hd (dropWhile ok data)) = e" by (rule assms)
qed

lemma map_takeWhile_cong:
  assumes "\<And>it. ok it \<Longrightarrow> g it = h it"
  shows "map g (takeWhile ok data) = map h (takeWhile ok data)"
  by (rule map_cong [OF refl]) (auto dest: set_takeWhileD intro: assms)

text \<open>What \<^verbatim>\<open>it.at(indices.at(k))\<close> needs, and what it gives.\<close>

lemma col_if:
  "col indices it k =
     (if k < length indices \<and> indices ! k < length it then Inr (it ! (indices ! k))
      else Inl out_of_range)"
  by (simp add: col_def vector_at_def)

lemma and_then_if:
  "and_then (if c then Inr x else Inl e) f = (if c then f x else Inl e)"
  by simp

lemma col3_if:
  "col3 indices it kx ky kz =
     (if (kx < length indices \<and> indices ! kx < length it)
         \<and> (ky < length indices \<and> indices ! ky < length it)
         \<and> (kz < length indices \<and> indices ! kz < length it)
      then Inr (it ! (indices ! kx), it ! (indices ! ky), it ! (indices ! kz))
      else Inl out_of_range)"
  by (simp add: col3_def col_if)

lemma all_less_7: "(\<forall>k<7. P k) \<longleftrightarrow> P 0 \<and> P 1 \<and> P 2 \<and> P 3 \<and> P 4 \<and> P 5 \<and> P (6::nat)"
proof
  assume "\<forall>k<7. P k"
  then show "P 0 \<and> P 1 \<and> P 2 \<and> P 3 \<and> P 4 \<and> P 5 \<and> P 6" by simp
next
  assume r: "P 0 \<and> P 1 \<and> P 2 \<and> P 3 \<and> P 4 \<and> P 5 \<and> P 6"
  show "\<forall>k<7. P k"
  proof (intro allI impI)
    fix k :: nat
    assume "k < 7"
    then have "k = 0 \<or> k = 1 \<or> k = 2 \<or> k = 3 \<or> k = 4 \<or> k = 5 \<or> k = 6" by arith
    with r show "P k" by auto
  qed
qed

lemma all_less_8:
  "(\<forall>k<8. P k) \<longleftrightarrow> P 0 \<and> P 1 \<and> P 2 \<and> P 3 \<and> P 4 \<and> P 5 \<and> P 6 \<and> P (7::nat)"
proof
  assume "\<forall>k<8. P k"
  then show "P 0 \<and> P 1 \<and> P 2 \<and> P 3 \<and> P 4 \<and> P 5 \<and> P 6 \<and> P 7" by simp
next
  assume r: "P 0 \<and> P 1 \<and> P 2 \<and> P 3 \<and> P 4 \<and> P 5 \<and> P 6 \<and> P 7"
  show "\<forall>k<8. P k"
  proof (intro allI impI)
    fix k :: nat
    assume "k < 8"
    then have "k = 0 \<or> k = 1 \<or> k = 2 \<or> k = 3 \<or> k = 4 \<or> k = 5 \<or> k = 6 \<or> k = 7"
      by arith
    with r show "P k" by auto
  qed
qed

lemma all_8_to_11: "(\<forall>k \<in> {8..<11}. P k) \<longleftrightarrow> P 8 \<and> P 9 \<and> P (10::nat)"
proof -
  have "{8..<11::nat} = {8, 9, 10}" by auto
  then show ?thesis by simp
qed

lemma all_11_to_17:
  "(\<forall>k \<in> {11..<17}. P k) \<longleftrightarrow> P 11 \<and> P 12 \<and> P 13 \<and> P 14 \<and> P 15 \<and> P (16::nat)"
proof -
  have "{11..<17::nat} = {11, 12, 13, 14, 15, 16}" by auto
  then show ?thesis by simp
qed

lemma imu_row_if:
  "imu_row idx it =
     (if \<forall>k<7. k < length idx \<and> idx ! k < length it
      then Inr \<lparr>imu_timestamp =
                  (if fp_gt (it ! (idx ! 0)) (Num (10 * 10 ^ 12)) then fp_div_1e9 (it ! (idx ! 0))
                   else it ! (idx ! 0)),
                imu_ang = (it ! (idx ! 1), it ! (idx ! 2), it ! (idx ! 3)),
                imu_acc = (it ! (idx ! 4), it ! (idx ! 5), it ! (idx ! 6))\<rparr>
      else Inl out_of_range)"
  unfolding all_less_7 imu_row_def col3_if col_if and_then_if by simp

lemma gt_row_if:
  "gt_row qn hv hb idx it =
     (if (\<forall>k<8. k < length idx \<and> idx ! k < length it)
         \<and> (hv \<longrightarrow> (\<forall>k \<in> {8..<11}. k < length idx \<and> idx ! k < length it))
         \<and> (hb \<longrightarrow> (\<forall>k \<in> {11..<17}. k < length idx \<and> idx ! k < length it))
      then Inr \<lparr>gt_timestamp =
                  (if fp_gt (it ! (idx ! 0)) (Num (10 * 10 ^ 12)) then fp_div_1e9 (it ! (idx ! 0))
                   else it ! (idx ! 0)),
                gt_q = qn (it ! (idx ! 1), it ! (idx ! 2), it ! (idx ! 3), it ! (idx ! 4)),
                gt_p = (it ! (idx ! 5), it ! (idx ! 6), it ! (idx ! 7)),
                gt_v = (if hv then (it ! (idx ! 8), it ! (idx ! 9), it ! (idx ! 10))
                        else (Num 0, Num 0, Num 0)),
                gt_bw = (if hb then (it ! (idx ! 11), it ! (idx ! 12), it ! (idx ! 13))
                         else (Num 0, Num 0, Num 0)),
                gt_ba = (if hb then (it ! (idx ! 14), it ! (idx ! 15), it ! (idx ! 16))
                         else (Num 0, Num 0, Num 0))\<rparr>
      else Inl out_of_range)"
  unfolding all_less_8 all_8_to_11 all_11_to_17 gt_row_def col3_if col_if and_then_if
  by (cases hv; cases hb) simp_all

lemma image_row_if:
  "image_row stod imread ones_mask folder toff idx it =
     (if 0 < length idx \<and> idx ! 0 < length it then
        (case stod (it ! (idx ! 0)) of
           Inl e \<Rightarrow> Inl e
         | Inr raw \<Rightarrow>
             if 1 < length idx \<and> idx ! 1 < length it then
               Inr \<lparr>cam_timestamp =
                      fp_add (if fp_gt raw (Num (10 * 10 ^ 12)) then fp_div_1e9 raw else raw)
                             toff,
                    cam_image = imread (folder @ it ! (idx ! 1)),
                    cam_mask = ones_mask (imread (folder @ it ! (idx ! 1)))\<rparr>
             else Inl out_of_range)
      else Inl out_of_range)"
  unfolding image_row_def col_if and_then_if
  by (cases "stod (it ! (idx ! 0))") (simp_all add: Let_def)

lemma mset_map_sorted:
  assumes "\<And>xs. mset (std_sort xs) = mset xs"
  shows "mset (map g (if c then std_sort out else out)) = mset (map g out)"
proof -
  have "mset (map g (std_sort out)) = image_mset g (mset (std_sort out))" by simp
  also have "\<dots> = image_mset g (mset out)" by (simp only: assms)
  finally show ?thesis by simp
qed

lemma parseAndCheckImu_found:
  assumes "good" "snd (getIndices trimString header (imu_header_titles s)) = Some idx"
  shows "parseAndCheckImu trimString std_sort good header data s =
           (fst (store_rows (imu_row idx) data []),
            s\<lparr>imu_header_titles := fst (getIndices trimString header (imu_header_titles s)),
               imu_data := (if fst (store_rows (imu_row idx) data []) = None
                            then std_sort (snd (store_rows (imu_row idx) data []))
                            else snd (store_rows (imu_row idx) data []))\<rparr>)"
  using assms
  by (cases "getIndices trimString header (imu_header_titles s)";
      cases "store_rows (imu_row idx) data []")
     (simp add: parseAndCheckImu_def)

lemma parseAndCheckGt_found:
  assumes "good" "gt_layout (length (groundtruth_header_titles s)) = Some (hv, hb)"
    "snd (getIndices trimString header (groundtruth_header_titles s)) = Some idx"
  shows "parseAndCheckGt trimString qn std_sort good header data s =
           (fst (store_rows (gt_row qn hv hb idx) data []),
            s\<lparr>groundtruth_header_titles :=
                 fst (getIndices trimString header (groundtruth_header_titles s)),
               groundtruth_data :=
                 (if fst (store_rows (gt_row qn hv hb idx) data []) = None
                  then std_sort (snd (store_rows (gt_row qn hv hb idx) data []))
                  else snd (store_rows (gt_row qn hv hb idx) data []))\<rparr>)"
  using assms
  by (cases "getIndices trimString header (groundtruth_header_titles s)";
      cases "store_rows (gt_row qn hv hb idx) data []")
     (simp add: parseAndCheckGt_def)

lemma parseAndCheckImages_found:
  assumes "good" "snd (getIndices trimString header (image_header_titles s)) = Some idx"
  shows "parseAndCheckImages trimString stod imread ones_mask std_sort good header data s =
           (fst (store_rows (image_row stod imread ones_mask (image_data_folder s)
                               (timeoffset s) idx) data []),
            s\<lparr>image_header_titles := fst (getIndices trimString header (image_header_titles s)),
               image_data :=
                 (if fst (store_rows (image_row stod imread ones_mask (image_data_folder s)
                                        (timeoffset s) idx) data []) = None
                  then std_sort (snd (store_rows (image_row stod imread ones_mask
                                         (image_data_folder s) (timeoffset s) idx) data []))
                  else snd (store_rows (image_row stod imread ones_mask (image_data_folder s)
                                          (timeoffset s) idx) data []))\<rparr>)"
  using assms
  by (cases "getIndices trimString header (image_header_titles s)";
      cases "store_rows (image_row stod imread ones_mask (image_data_folder s)
                           (timeoffset s) idx) data []")
     (simp add: parseAndCheckImages_def)

lemma gt_layout_cases:
  "gt_layout n = (if n = 17 \<or> n = 14 \<or> n = 11 \<or> n = 8
                  then Some (n = 17 \<or> n = 11, n = 17 \<or> n = 14) else None)"
  by (simp add: gt_layout_def)

text \<open>The three loops, each with the rows it can read and the timestamp it stores.\<close>

lemma imu_row_readable:
  assumes "\<forall>k<7. k < length idx \<and> idx ! k < length it"
  shows "\<exists>r. imu_row idx it = Inr r
           \<and> imu_timestamp r
               = (if fp_gt (it ! (idx ! 0)) (Num (10 * 10 ^ 12)) then fp_div_1e9 (it ! (idx ! 0))
                  else it ! (idx ! 0))"
  by (subst imu_row_if, subst if_P, rule assms) simp

lemma imu_row_unreadable:
  assumes "\<not> (\<forall>k<7. k < length idx \<and> idx ! k < length it)"
  shows "imu_row idx it = Inl out_of_range"
  by (subst imu_row_if, rule if_not_P, rule assms)

lemma rows_stored:
  assumes good: "\<And>it. ok it \<Longrightarrow> \<exists>r. f it = Inr r \<and> ts r = resc it"
    and bad: "\<And>it. \<not> ok it \<Longrightarrow> \<exists>e. f it = Inl e \<and> P e"
    and run: "store_rows f data [] = (res, out)"
  shows "(res = None \<longleftrightarrow> (\<forall>it \<in> set data. ok it))
       \<and> (res = None \<or> (\<exists>e. res = Some e \<and> P e))
       \<and> map ts out = map resc (takeWhile ok data)"
proof -
  have good': "\<And>it. ok it \<Longrightarrow> \<exists>r. f it = Inr r" using good by blast
  have bad': "\<And>it. \<not> ok it \<Longrightarrow> \<exists>e. f it = Inl e" using bad by blast
  from run store_rows_takeWhile [of ok f data "[]", OF good' bad']
  have res: "res = (case dropWhile ok data of [] \<Rightarrow> None | it # _ \<Rightarrow> Some (projl (f it)))"
    and out: "out = map (\<lambda>it. projr (f it)) (takeWhile ok data)"
    by simp_all
  have r1: "res = None \<longleftrightarrow> (\<forall>it \<in> set data. ok it)"
    unfolding res by (rule dropWhile_case_None)
  have r2: "res = None \<or> (\<exists>e. res = Some e \<and> P e)"
  proof (cases "dropWhile ok data")
    case Nil
    show ?thesis unfolding res Nil by simp
  next
    case (Cons it rest)
    have "dropWhile ok data \<noteq> []" unfolding Cons by simp
    then have "\<not> ok (hd (dropWhile ok data))" by (rule hd_dropWhile)
    then have "\<not> ok it" unfolding Cons by simp
    from bad [OF this] obtain e where "f it = Inl e" "P e" by blast
    then show ?thesis unfolding res Cons by simp
  qed
  have "map ts out = map (\<lambda>it. ts (projr (f it))) (takeWhile ok data)"
    by (simp add: out comp_def)
  also have "\<dots> = map resc (takeWhile ok data)"
  proof (rule map_takeWhile_cong)
    fix it assume "ok it"
    from good [OF this] show "ts (projr (f it)) = resc it" by auto
  qed
  finally show ?thesis using r1 r2 by blast
qed

lemma gt_row_readable:
  assumes "(\<forall>k<8. k < length idx \<and> idx ! k < length it)
         \<and> (hv \<longrightarrow> (\<forall>k \<in> {8..<11}. k < length idx \<and> idx ! k < length it))
         \<and> (hb \<longrightarrow> (\<forall>k \<in> {11..<17}. k < length idx \<and> idx ! k < length it))"
  shows "\<exists>r. gt_row qn hv hb idx it = Inr r
           \<and> gt_timestamp r
               = (if fp_gt (it ! (idx ! 0)) (Num (10 * 10 ^ 12)) then fp_div_1e9 (it ! (idx ! 0))
                  else it ! (idx ! 0))"
  by (subst gt_row_if, subst if_P, rule assms) simp

lemma gt_row_unreadable:
  assumes "\<not> ((\<forall>k<8. k < length idx \<and> idx ! k < length it)
         \<and> (hv \<longrightarrow> (\<forall>k \<in> {8..<11}. k < length idx \<and> idx ! k < length it))
         \<and> (hb \<longrightarrow> (\<forall>k \<in> {11..<17}. k < length idx \<and> idx ! k < length it)))"
  shows "gt_row qn hv hb idx it = Inl out_of_range"
  by (subst gt_row_if, rule if_not_P, rule assms)

lemma image_row_readable:
  assumes "(0 < length idx \<and> idx ! 0 < length it)
         \<and> (\<exists>raw. stod (it ! (idx ! 0)) = Inr raw)
         \<and> (1 < length idx \<and> idx ! 1 < length it)"
  shows "\<exists>r. image_row stod imread ones_mask folder toff idx it = Inr r
           \<and> cam_timestamp r
               = fp_add (if fp_gt (projr (stod (it ! (idx ! 0)))) (Num (10 * 10 ^ 12))
                         then fp_div_1e9 (projr (stod (it ! (idx ! 0))))
                         else projr (stod (it ! (idx ! 0))))
                        toff"
  using assms by (auto simp: image_row_if)

lemma image_row_unreadable:
  assumes "\<not> ((0 < length idx \<and> idx ! 0 < length it)
         \<and> (\<exists>raw. stod (it ! (idx ! 0)) = Inr raw)
         \<and> (1 < length idx \<and> idx ! 1 < length it))"
  shows "\<exists>e. image_row stod imread ones_mask folder toff idx it = Inl e \<and> True"
  using assms by (cases "stod (it ! (idx ! 0))") (auto simp: image_row_if)

section \<open>Consuming a sensor reading\<close>

text \<open>
  Claim C8. For every timestamp \<open>t\<close>, \<^verbatim>\<open>consumeSensorReadingAt(t)\<close> returns the first stored
  IMU reading whose timestamp equals \<open>t\<close> and erases it (and only it) from the IMU data,
  leaving the camera data as it is, also when a camera reading has the same timestamp.
  When no IMU reading has timestamp \<open>t\<close>, it returns and erases the first camera reading
  with timestamp \<open>t\<close> and leaves the IMU data as it is. When neither exists, it throws a
  runtime error and the stored data is unchanged.
\<close>

theorem consumeSensorReadingAt_cases:
  "((\<exists>x \<in> set (imu_data s). fp_eq (imu_timestamp x) t) \<longrightarrow>
      (\<exists>pre r post. imu_data s = pre @ r # post
         \<and> (\<forall>x \<in> set pre. \<not> fp_eq (imu_timestamp x) t)
         \<and> fp_eq (imu_timestamp r) t
         \<and> consumeSensorReadingAt t s = (Inr (ImuReading r), s\<lparr>imu_data := pre @ post\<rparr>)))
 \<and> ((\<forall>x \<in> set (imu_data s). \<not> fp_eq (imu_timestamp x) t)
      \<and> (\<exists>c \<in> set (image_data s). fp_eq (cam_timestamp c) t) \<longrightarrow>
      (\<exists>pre r post. image_data s = pre @ r # post
         \<and> (\<forall>c \<in> set pre. \<not> fp_eq (cam_timestamp c) t)
         \<and> fp_eq (cam_timestamp r) t
         \<and> consumeSensorReadingAt t s
             = (Inr (CameraReading r), s\<lparr>image_data := pre @ post\<rparr>)))
 \<and> ((\<forall>x \<in> set (imu_data s). \<not> fp_eq (imu_timestamp x) t)
      \<and> (\<forall>c \<in> set (image_data s). \<not> fp_eq (cam_timestamp c) t) \<longrightarrow>
      consumeSensorReadingAt t s
        = (Inl (runtime_error ''No sensor reading found at timestamp '' (Some t)), s))"
proof (intro conjI impI)
  let ?P = "\<lambda>imu. fp_eq (imu_timestamp imu) t"
  let ?Q = "\<lambda>cam. fp_eq (cam_timestamp cam) t"
  {
    assume "\<exists>x \<in> set (imu_data s). ?P x"
    then have ne: "find_if ?P (imu_data s) \<noteq> length (imu_data s)"
      by (simp add: find_if_end_iff)
    from find_if_found [OF ne] obtain pre r post where
      h: "imu_data s = pre @ r # post" "\<forall>x \<in> set pre. \<not> ?P x" "?P r"
         "find_if ?P (imu_data s) = length pre"
      by blast
    have "consumeSensorReadingAt t s = (Inr (ImuReading r), s\<lparr>imu_data := pre @ post\<rparr>)"
      unfolding consumeSensorReadingAt_def Let_def h(4)
      by (simp add: h(1) erase_middle)
    with h show "\<exists>pre r post. imu_data s = pre @ r # post
         \<and> (\<forall>x \<in> set pre. \<not> fp_eq (imu_timestamp x) t)
         \<and> fp_eq (imu_timestamp r) t
         \<and> consumeSensorReadingAt t s = (Inr (ImuReading r), s\<lparr>imu_data := pre @ post\<rparr>)"
      by blast
  }
  {
    assume "(\<forall>x \<in> set (imu_data s). \<not> ?P x) \<and> (\<exists>c \<in> set (image_data s). ?Q c)"
    then have e: "find_if ?P (imu_data s) = length (imu_data s)"
      and ne: "find_if ?Q (image_data s) \<noteq> length (image_data s)"
      by (simp_all add: find_if_end_iff)
    from find_if_found [OF ne] obtain pre r post where
      h: "image_data s = pre @ r # post" "\<forall>x \<in> set pre. \<not> ?Q x" "?Q r"
         "find_if ?Q (image_data s) = length pre"
      by blast
    have "consumeSensorReadingAt t s = (Inr (CameraReading r), s\<lparr>image_data := pre @ post\<rparr>)"
      unfolding consumeSensorReadingAt_def Let_def h(4) e
      by (simp add: h(1) erase_middle)
    with h show "\<exists>pre r post. image_data s = pre @ r # post
         \<and> (\<forall>c \<in> set pre. \<not> fp_eq (cam_timestamp c) t)
         \<and> fp_eq (cam_timestamp r) t
         \<and> consumeSensorReadingAt t s
             = (Inr (CameraReading r), s\<lparr>image_data := pre @ post\<rparr>)"
      by blast
  }
  {
    assume "(\<forall>x \<in> set (imu_data s). \<not> ?P x) \<and> (\<forall>c \<in> set (image_data s). \<not> ?Q c)"
    then have "find_if ?P (imu_data s) = length (imu_data s)"
      and "find_if ?Q (image_data s) = length (image_data s)"
      by (simp_all add: find_if_end_iff)
    then show "consumeSensorReadingAt t s
        = (Inl (runtime_error ''No sensor reading found at timestamp '' (Some t)), s)"
      by (simp add: consumeSensorReadingAt_def Let_def)
  }
qed

text \<open>
  The three cases at the example parser: at timestamp 2 an IMU and a camera reading exist,
  at \<open>4\<close> only a camera reading, at \<open>5\<close> none.
\<close>

theorem consumeSensorReadingAt_cases_witness:
  "(\<exists>pre r post. imu_data example_parser = pre @ r # post
         \<and> (\<forall>x \<in> set pre. \<not> fp_eq (imu_timestamp x) (Num 2))
         \<and> fp_eq (imu_timestamp r) (Num 2)
         \<and> consumeSensorReadingAt (Num 2) example_parser
             = (Inr (ImuReading r), example_parser\<lparr>imu_data := pre @ post\<rparr>))
 \<and> (\<exists>pre r post. image_data example_parser = pre @ r # post
         \<and> (\<forall>c \<in> set pre. \<not> fp_eq (cam_timestamp c) (Num 4))
         \<and> fp_eq (cam_timestamp r) (Num 4)
         \<and> consumeSensorReadingAt (Num 4) example_parser
             = (Inr (CameraReading r), example_parser\<lparr>image_data := pre @ post\<rparr>))
 \<and> consumeSensorReadingAt (Num 5) example_parser
      = (Inl (runtime_error ''No sensor reading found at timestamp '' (Some (Num 5))),
         example_parser)"
proof (intro conjI)
  have "\<exists>x \<in> set (imu_data example_parser). fp_eq (imu_timestamp x) (Num 2)"
    by (simp add: example_parser_def imu_at_def)
  with consumeSensorReadingAt_cases [of example_parser "Num 2"]
  show "\<exists>pre r post. imu_data example_parser = pre @ r # post
         \<and> (\<forall>x \<in> set pre. \<not> fp_eq (imu_timestamp x) (Num 2))
         \<and> fp_eq (imu_timestamp r) (Num 2)
         \<and> consumeSensorReadingAt (Num 2) example_parser
             = (Inr (ImuReading r), example_parser\<lparr>imu_data := pre @ post\<rparr>)"
    by blast
next
  have "(\<forall>x \<in> set (imu_data example_parser). \<not> fp_eq (imu_timestamp x) (Num 4))
      \<and> (\<exists>c \<in> set (image_data example_parser). fp_eq (cam_timestamp c) (Num 4))"
    by (simp add: example_parser_def imu_at_def cam_at_def)
  with consumeSensorReadingAt_cases [of example_parser "Num 4"]
  show "\<exists>pre r post. image_data example_parser = pre @ r # post
         \<and> (\<forall>c \<in> set pre. \<not> fp_eq (cam_timestamp c) (Num 4))
         \<and> fp_eq (cam_timestamp r) (Num 4)
         \<and> consumeSensorReadingAt (Num 4) example_parser
             = (Inr (CameraReading r), example_parser\<lparr>image_data := pre @ post\<rparr>)"
    by blast
next
  have "(\<forall>x \<in> set (imu_data example_parser). \<not> fp_eq (imu_timestamp x) (Num 5))
      \<and> (\<forall>c \<in> set (image_data example_parser). \<not> fp_eq (cam_timestamp c) (Num 5))"
    by (simp add: example_parser_def imu_at_def cam_at_def)
  with consumeSensorReadingAt_cases [of example_parser "Num 5"]
  show "consumeSensorReadingAt (Num 5) example_parser
      = (Inl (runtime_error ''No sensor reading found at timestamp '' (Some (Num 5))),
         example_parser)"
    by blast
qed

text \<open>
  The same inputs evaluated: with an IMU and a camera reading at timestamp 2, the first of
  the two IMU readings at 2 is returned and erased, and the camera data is untouched.
\<close>

lemma consumeSensorReadingAt_example_both:
  "consumeSensorReadingAt (Num 2) example_parser
     = (Inr (ImuReading (imu_at 2)),
        example_parser\<lparr>imu_data := [imu_at 1, imu_at 2, imu_at 3]\<rparr>)"
  by (simp add: consumeSensorReadingAt_def example_parser_def imu_at_def cam_at_def erase_def)

lemma consumeSensorReadingAt_example_camera:
  "consumeSensorReadingAt (Num 4) example_parser
     = (Inr (CameraReading (cam_at 4 8)), example_parser\<lparr>image_data := [cam_at 2 7]\<rparr>)"
  by (simp add: consumeSensorReadingAt_def example_parser_def imu_at_def cam_at_def erase_def)

section \<open>The groundtruth closest to a timestamp\<close>



text \<open>
  The calls of the witness evaluated, and further ones on the example parser
  (groundtruth at 1, 2 and 10): the predecessor at 2 is closer to \<open>5/2\<close> than the record
  at 10; a predecessor as far from \<open>t\<close> as the later record does not replace it; the first
  record has no predecessor.
\<close>

lemma getCloserGroundtruthAt_example_predecessor:
  "getCloserGroundtruthAt (Num (5 / 2)) example_parser = Inr (gt_at 2)"
  by (simp add: getCloserGroundtruthAt_def example_parser_def gt_at_def fp_sub_10_t fp_sub_2_t)

lemma getCloserGroundtruthAt_example_tie:
  "getCloserGroundtruthAt (Num 6) example_parser = Inr (gt_at 10)"
  by (simp add: getCloserGroundtruthAt_def example_parser_def gt_at_def fp_sub_10_6 fp_sub_2_6)

lemma getCloserGroundtruthAt_example_first:
  "getCloserGroundtruthAt (Num 0) example_parser = Inr (gt_at 1)"
  by (simp add: getCloserGroundtruthAt_def example_parser_def gt_at_def)

text \<open>
  Two distances that differ by less than the rounding of the subtraction are equal for
  the code. With records at the double nearest to \<open>1e-20\<close> and at 8, and \<open>t = 4\<close>, the first
  record later than \<open>t\<close> is the one at 8; both differences have the absolute value 4 in
  double precision, \<^verbatim>\<open>4.0 > 4.0\<close> is false, and the record at 8 is returned.
\<close>

lemma getCloserGroundtruthAt_example_near_tie:
  "groundtruth_data near_tie_parser = [gt_at double_1e_20, gt_at 8]
 \<and> \<not> fp_gt (gt_timestamp (gt_at double_1e_20)) (Num 4)
 \<and> fp_gt (gt_timestamp (gt_at 8)) (Num 4)
 \<and> fp_abs (fp_sub (Num double_1e_20) (Num 4)) = Num 4
 \<and> fp_abs (fp_sub (Num 8) (Num 4)) = Num 4
 \<and> \<bar>double_1e_20 - 4\<bar> < \<bar>8 - 4\<bar>
 \<and> getCloserGroundtruthAt (Num 4) near_tie_parser = Inr (gt_at 8)"
  using double_1e_20_bounds
  by (simp add: getCloserGroundtruthAt_def near_tie_parser_def example_parser_def gt_at_def
        fp_sub_near_tie fp_sub_8_4)

section \<open>Timestamps of the parsed data\<close>

text \<open>
  Claim C9. In each of the three parsers, once the file is good and the titles are found
  in the header, the loop stores one record for every row up to the first row it cannot
  read (a row is readable when every column the loop reads exists and, for an image row,
  \<^verbatim>\<open>std::stod\<close> accepts the timestamp cell); the run ends without an exception exactly
  when every row is readable. The stored timestamps are then, up to the order
  \<^verbatim>\<open>std::sort\<close> gives them, these: for an IMU or groundtruth row its raw value divided by
  \<open>1e9\<close> when the raw value exceeds \<open>10e12\<close>, and the raw value itself otherwise, with no
  offset added; for an image row its raw value, rescaled in the same way, plus the
  configured time offset.
\<close>

theorem parsed_timestamps_rescaled:
  assumes perm_imu: "\<And>xs. mset (sort_imu xs) = mset xs"
    and perm_gt: "\<And>xs. mset (sort_gt xs) = mset xs"
    and perm_cam: "\<And>xs. mset (sort_cam xs) = mset xs"
  shows
    "(good \<and> snd (getIndices trimString header (imu_header_titles s)) = Some imu_indices \<longrightarrow>
        (let readable = (\<lambda>it. \<forall>k<7. k < length imu_indices \<and> imu_indices ! k < length it);
             run = parseAndCheckImu trimString sort_imu good header data s
         in (fst run = None \<longleftrightarrow> (\<forall>it \<in> set data. readable it))
          \<and> (fst run = None \<or> fst run = Some out_of_range)
          \<and> mset (map imu_timestamp (imu_data (snd run)))
              = mset (map (\<lambda>it. if fp_gt (it ! (imu_indices ! 0)) (Num (10 * 10 ^ 12))
                                 then fp_div_1e9 (it ! (imu_indices ! 0))
                                 else it ! (imu_indices ! 0))
                          (takeWhile readable data))))
   \<and> (good \<and> length (groundtruth_header_titles s) \<in> {17, 14, 11, 8}
        \<and> snd (getIndices trimString header (groundtruth_header_titles s))
            = Some groundtruth_indices \<longrightarrow>
        (let n = length (groundtruth_header_titles s);
             has_col = (\<lambda>it k. k < length groundtruth_indices \<and> groundtruth_indices ! k < length it);
             readable = (\<lambda>it. (\<forall>k<8. has_col it k)
                \<and> (n = 17 \<or> n = 11 \<longrightarrow> (\<forall>k \<in> {8..<11}. has_col it k))
                \<and> (n = 17 \<or> n = 14 \<longrightarrow> (\<forall>k \<in> {11..<17}. has_col it k)));
             run = parseAndCheckGt trimString q_normalize sort_gt good header data s
         in (fst run = None \<longleftrightarrow> (\<forall>it \<in> set data. readable it))
          \<and> (fst run = None \<or> fst run = Some out_of_range)
          \<and> mset (map gt_timestamp (groundtruth_data (snd run)))
              = mset (map (\<lambda>it. if fp_gt (it ! (groundtruth_indices ! 0)) (Num (10 * 10 ^ 12))
                                 then fp_div_1e9 (it ! (groundtruth_indices ! 0))
                                 else it ! (groundtruth_indices ! 0))
                          (takeWhile readable data))))
   \<and> (good \<and> snd (getIndices trimString header (image_header_titles s)) = Some image_indices
        \<longrightarrow>
        (let raw = (\<lambda>it. projr (stod (it ! (image_indices ! 0))));
             readable = (\<lambda>it. (0 < length image_indices \<and> image_indices ! 0 < length it)
                \<and> (\<exists>x. stod (it ! (image_indices ! 0)) = Inr x)
                \<and> (1 < length image_indices \<and> image_indices ! 1 < length it));
             run = parseAndCheckImages trimString stod imread ones_mask sort_cam good
                     header rows s
         in (fst run = None \<longleftrightarrow> (\<forall>it \<in> set rows. readable it))
          \<and> mset (map cam_timestamp (image_data (snd run)))
              = mset (map (\<lambda>it. fp_add (if fp_gt (raw it) (Num (10 * 10 ^ 12))
                                         then fp_div_1e9 (raw it) else raw it)
                                        (timeoffset s))
                          (takeWhile readable rows))))"
proof (intro conjI impI)
  assume a: "good \<and> snd (getIndices trimString header (imu_header_titles s)) = Some imu_indices"
  let ?ok = "\<lambda>it :: fp list. \<forall>k<7. k < length imu_indices \<and> imu_indices ! k < length it"
  let ?f = "imu_row imu_indices"
  let ?run = "parseAndCheckImu trimString sort_imu good header data s"
  obtain res out where run: "store_rows ?f data [] = (res, out)"
    by (cases "store_rows ?f data []")
  from a have eq: "fst ?run = res"
      "imu_data (snd ?run) = (if res = None then sort_imu out else out)"
    by (simp_all add: parseAndCheckImu_found run)
  have m: "mset (map imu_timestamp (imu_data (snd ?run))) = mset (map imu_timestamp out)"
    unfolding eq by (rule mset_map_sorted [OF perm_imu])
  from rows_stored [of ?ok ?f imu_timestamp _ "\<lambda>e. e = out_of_range" data res out,
      OF imu_row_readable _ run] imu_row_unreadable [of imu_indices]
  show "let readable = ?ok; run = ?run
         in (fst run = None \<longleftrightarrow> (\<forall>it \<in> set data. readable it))
          \<and> (fst run = None \<or> fst run = Some out_of_range)
          \<and> mset (map imu_timestamp (imu_data (snd run)))
              = mset (map (\<lambda>it. if fp_gt (it ! (imu_indices ! 0)) (Num (10 * 10 ^ 12))
                                 then fp_div_1e9 (it ! (imu_indices ! 0))
                                 else it ! (imu_indices ! 0))
                          (takeWhile readable data))"
    unfolding Let_def m eq(1) by auto
next
  assume a: "good \<and> length (groundtruth_header_titles s) \<in> {17, 14, 11, 8}
        \<and> snd (getIndices trimString header (groundtruth_header_titles s))
            = Some groundtruth_indices"
  let ?n = "length (groundtruth_header_titles s)"
  let ?hv = "?n = 17 \<or> ?n = 11"
  let ?hb = "?n = 17 \<or> ?n = 14"
  let ?idx = groundtruth_indices
  let ?ok = "\<lambda>it :: fp list. (\<forall>k<8. k < length ?idx \<and> ?idx ! k < length it)
                \<and> (?hv \<longrightarrow> (\<forall>k \<in> {8..<11}. k < length ?idx \<and> ?idx ! k < length it))
                \<and> (?hb \<longrightarrow> (\<forall>k \<in> {11..<17}. k < length ?idx \<and> ?idx ! k < length it))"
  let ?f = "gt_row q_normalize ?hv ?hb ?idx"
  let ?run = "parseAndCheckGt trimString q_normalize sort_gt good header data s"
  from a have lay: "gt_layout ?n = Some (?hv, ?hb)"
    by (simp add: gt_layout_cases)
  obtain res out where run: "store_rows ?f data [] = (res, out)"
    by (cases "store_rows ?f data []")
  from a lay have eq: "fst ?run = res"
      "groundtruth_data (snd ?run) = (if res = None then sort_gt out else out)"
    by (simp_all add: parseAndCheckGt_found run)
  have m: "mset (map gt_timestamp (groundtruth_data (snd ?run))) = mset (map gt_timestamp out)"
    unfolding eq by (rule mset_map_sorted [OF perm_gt])
  from rows_stored [of ?ok ?f gt_timestamp _ "\<lambda>e. e = out_of_range" data res out,
      OF gt_row_readable _ run] gt_row_unreadable [of ?idx _ ?hv ?hb q_normalize]
  show "let n = ?n;
            has_col = (\<lambda>it k. k < length groundtruth_indices \<and> groundtruth_indices ! k < length it);
            readable = (\<lambda>it. (\<forall>k<8. has_col it k)
                \<and> (n = 17 \<or> n = 11 \<longrightarrow> (\<forall>k \<in> {8..<11}. has_col it k))
                \<and> (n = 17 \<or> n = 14 \<longrightarrow> (\<forall>k \<in> {11..<17}. has_col it k)));
            run = ?run
         in (fst run = None \<longleftrightarrow> (\<forall>it \<in> set data. readable it))
          \<and> (fst run = None \<or> fst run = Some out_of_range)
          \<and> mset (map gt_timestamp (groundtruth_data (snd run)))
              = mset (map (\<lambda>it. if fp_gt (it ! (groundtruth_indices ! 0)) (Num (10 * 10 ^ 12))
                                 then fp_div_1e9 (it ! (groundtruth_indices ! 0))
                                 else it ! (groundtruth_indices ! 0))
                          (takeWhile readable data))"
    unfolding Let_def m eq(1) by auto
next
  assume a: "good \<and> snd (getIndices trimString header (image_header_titles s))
               = Some image_indices"
  let ?idx = image_indices
  let ?ok = "\<lambda>it :: string list. (0 < length ?idx \<and> ?idx ! 0 < length it)
                \<and> (\<exists>x. stod (it ! (?idx ! 0)) = Inr x)
                \<and> (1 < length ?idx \<and> ?idx ! 1 < length it)"
  let ?f = "image_row stod imread ones_mask (image_data_folder s) (timeoffset s) ?idx"
  let ?run = "parseAndCheckImages trimString stod imread ones_mask sort_cam good header rows s"
  obtain res out where run: "store_rows ?f rows [] = (res, out)"
    by (cases "store_rows ?f rows []")
  from a have eq: "fst ?run = res"
      "image_data (snd ?run) = (if res = None then sort_cam out else out)"
    by (simp_all add: parseAndCheckImages_found run)
  have m: "mset (map cam_timestamp (image_data (snd ?run))) = mset (map cam_timestamp out)"
    unfolding eq by (rule mset_map_sorted [OF perm_cam])
  from rows_stored [of ?ok ?f cam_timestamp _ "\<lambda>e. True" rows res out,
      OF image_row_readable image_row_unreadable run]
  show "let raw = (\<lambda>it. projr (stod (it ! (image_indices ! 0))));
            readable = ?ok; run = ?run
         in (fst run = None \<longleftrightarrow> (\<forall>it \<in> set rows. readable it))
          \<and> mset (map cam_timestamp (image_data (snd run)))
              = mset (map (\<lambda>it. fp_add (if fp_gt (raw it) (Num (10 * 10 ^ 12))
                                         then fp_div_1e9 (raw it) else raw it)
                                        (timeoffset s))
                          (takeWhile readable rows))"
    unfolding Let_def m eq(1) by auto
qed

text \<open>
  The three parsers on example files whose first timestamp is EuRoC's
  1403636579763555584 (nanoseconds) and whose time offset is \<open>1/2\<close>, with list reversal in
  the place of the sort. All rows are readable, and the stored timestamps are the rounded
  quotient, the small values as they are (also \<open>10e12\<close>, which does not exceed the
  threshold), and for the images the sums with the offset.
\<close>

theorem parsed_timestamps_rescaled_witness:
  "fst (parseAndCheckImu (\<lambda>x. x) rev True example_imu_header example_imu_rows
          example_parser) = None
 \<and> mset (map imu_timestamp
            (imu_data (snd (parseAndCheckImu (\<lambda>x. x) rev True example_imu_header
                              example_imu_rows example_parser))))
     = mset [Num (735909815131075 / 524288), Num 5]
 \<and> fst (parseAndCheckGt (\<lambda>x. x) (\<lambda>q. q) rev True example_gt_header example_gt_rows
          example_parser) = None
 \<and> mset (map gt_timestamp
            (groundtruth_data (snd (parseAndCheckGt (\<lambda>x. x) (\<lambda>q. q) rev True
                                      example_gt_header example_gt_rows example_parser))))
     = mset [Num (735909815131075 / 524288), Num 10000000000000]
 \<and> fst (parseAndCheckImages (\<lambda>x. x) example_stod length (\<lambda>i. 255) rev True
          [''t'', ''n''] example_image_rows example_parser) = None
 \<and> mset (map cam_timestamp
            (image_data (snd (parseAndCheckImages (\<lambda>x. x) example_stod length (\<lambda>i. 255) rev
                                True [''t'', ''n''] example_image_rows example_parser))))
     = mset [Num (735909815393219 / 524288), Num (15 / 2)]"
proof -
  have p_imu: "\<And>xs :: Imu list. mset (rev xs) = mset xs"
    and p_gt: "\<And>xs :: Groundtruth list. mset (rev xs) = mset xs"
    and p_cam: "\<And>xs :: nat Camera list. mset (rev xs) = mset xs"
    by simp_all
  have i_imu: "True \<and> snd (getIndices (\<lambda>x. x) example_imu_header
                              (imu_header_titles example_parser))
                 = Some [0, 1, 2, 3, 4, 5, 6]"
    by (simp add: getIndices_def getIndex_def example_imu_header_def example_parser_def)
  have i_gt: "True \<and> length (groundtruth_header_titles example_parser) \<in> {17, 14, 11, 8}
              \<and> snd (getIndices (\<lambda>x. x) example_gt_header
                        (groundtruth_header_titles example_parser))
                 = Some [0, 1, 2, 3, 4, 5, 6, 7]"
    by (simp add: getIndices_def getIndex_def example_gt_header_def example_parser_def)
  have i_cam: "True \<and> snd (getIndices (\<lambda>x. x) [''t'', ''n'']
                              (image_header_titles example_parser))
                 = Some [0, 1]"
    by (simp add: getIndices_def getIndex_def example_parser_def)
  note t = parsed_timestamps_rescaled [of rev rev rev, OF p_imu p_gt p_cam]
  note imu = t [where good = True and trimString = "\<lambda>x. x" and header = example_imu_header
            and s = example_parser and imu_indices = "[0, 1, 2, 3, 4, 5, 6]"
            and data = example_imu_rows, THEN conjunct1, THEN mp, OF i_imu]
  note gt = t [where good = True and trimString = "\<lambda>x. x" and header = example_gt_header
            and s = example_parser and groundtruth_indices = "[0, 1, 2, 3, 4, 5, 6, 7]"
            and data = example_gt_rows and q_normalize = "\<lambda>q. q",
            THEN conjunct2, THEN conjunct1, THEN mp, OF i_gt]
  note cam = t [where good = True and trimString = "\<lambda>x. x" and header = "[''t'', ''n'']"
            and s = example_parser and image_indices = "[0, 1]"
            and rows = example_image_rows and stod = example_stod and imread = length
            and ones_mask = "\<lambda>i. 255",
            THEN conjunct2, THEN conjunct2, THEN mp, OF i_cam]
  have r_imu: "\<forall>it \<in> set example_imu_rows.
                 \<forall>k<7. k < length [0, 1, 2, 3, 4, 5, 6 :: nat]
                        \<and> [0, 1, 2, 3, 4, 5, 6] ! k < length it"
    by (simp add: all_less_7 example_imu_rows_def)
  have r_gt: "\<forall>it \<in> set example_gt_rows.
                 \<forall>k<8. k < length [0, 1, 2, 3, 4, 5, 6, 7 :: nat]
                        \<and> [0, 1, 2, 3, 4, 5, 6, 7] ! k < length it"
    by (simp add: all_less_8 example_gt_rows_def)
  have r_cam: "\<forall>it \<in> set example_image_rows.
                 (0 < length [0, 1 :: nat] \<and> [0, 1] ! 0 < length it)
                 \<and> (\<exists>x. example_stod (it ! ([0, 1] ! 0)) = Inr x)
                 \<and> (1 < length [0, 1 :: nat] \<and> [0, 1] ! 1 < length it)"
    by (simp add: example_image_rows_def example_stod_def)
  have "fst (parseAndCheckImu (\<lambda>x. x) rev True example_imu_header example_imu_rows
          example_parser) = None
     \<and> mset (map imu_timestamp
            (imu_data (snd (parseAndCheckImu (\<lambda>x. x) rev True example_imu_header
                              example_imu_rows example_parser))))
         = mset [Num (735909815131075 / 524288), Num 5]"
    using imu r_imu
    by (simp add: Let_def takeWhile_eq_all_conv [THEN iffD2] example_imu_rows_def
          fp_div_1e9_euroc del: fp_div_1e9.simps)
  moreover have "fst (parseAndCheckGt (\<lambda>x. x) (\<lambda>q. q) rev True example_gt_header
          example_gt_rows example_parser) = None
     \<and> mset (map gt_timestamp
            (groundtruth_data (snd (parseAndCheckGt (\<lambda>x. x) (\<lambda>q. q) rev True
                                      example_gt_header example_gt_rows example_parser))))
         = mset [Num (735909815131075 / 524288), Num 10000000000000]"
    using gt r_gt
    by (simp add: Let_def takeWhile_eq_all_conv [THEN iffD2] example_gt_rows_def
          example_parser_def fp_div_1e9_euroc del: fp_div_1e9.simps)
  moreover have "fst (parseAndCheckImages (\<lambda>x. x) example_stod length (\<lambda>i. 255) rev True
          [''t'', ''n''] example_image_rows example_parser) = None
     \<and> mset (map cam_timestamp
            (image_data (snd (parseAndCheckImages (\<lambda>x. x) example_stod length (\<lambda>i. 255) rev
                                True [''t'', ''n''] example_image_rows example_parser))))
         = mset [Num (735909815393219 / 524288), Num (15 / 2)]"
    using cam r_cam
    by (simp add: Let_def takeWhile_eq_all_conv [THEN iffD2] example_image_rows_def
          example_stod_def fp_div_1e9_euroc fp_add_euroc_offset fp_add_7_offset
          del: fp_div_1e9.simps fp_add.simps)
       (simp add: example_parser_def fp_add_euroc_offset fp_add_7_offset del: fp_add.simps)
  ultimately show ?thesis by (intro conjI) simp_all
qed

end
